theory Spec2Isabelle
  imports Complex_Main
begin

section \<open>Antimeridian splitting of polygons (split\_polygons.py)\<close>

text \<open>
  A shallow embedding of \<^verbatim>\<open>src/nccos-smt/split_polygons.py\<close>.

  Modelling conventions.
  \<^item> Python floats are modelled as \<^typ>\<open>real\<close>: arithmetic is exact, there is no rounding,
    no infinity and no NaN among coordinates. A statement of the specification that holds
    "up to floating-point tolerance" is stated here as an exact equality.
  \<^item> A coordinate is a pair (longitude, latitude); a ring is a list of coordinates; a polygon
    is the list of its rings as in the GeoJSON \<^verbatim>\<open>coordinates\<close> member (the shell first, the
    holes after it); a multipolygon or geometry collection of polygons is a list of polygons.
    The constructor \<^verbatim>\<open>Polygon(shell, holes)\<close> is the list \<open>shell # holes\<close>.
  \<^item> Every \<^verbatim>\<open>raise\<close> and every failing Python operation is a value \<open>Inl e\<close> of the
    result type \<open>error + 'a\<close>.
  \<^item> The planar-geometry engine (shapely) is not part of the repository. Its bounding box
    and horizontal translation are modelled from the specification; its split-by-line
    operation is a parameter \<open>split_prim\<close> of the functions that call it.
\<close>

subsection \<open>Data model\<close>

type_synonym coord = "real \<times> real"
type_synonym ring = "coord list"
type_synonym polygon = "ring list"
type_synonym multipolygon = "polygon list"
type_synonym linestring = "coord list"

text \<open>
  The exceptions the code can raise.
  \<^item> \<open>ValueError_longitudes\<close>: the \<^verbatim>\<open>ValueError("longitudes must be in degrees ...")\<close> of
    \<^verbatim>\<open>check_crossing\<close> (the specification's InvalidInput);
  \<^item> \<open>NotImplementedError\<close>: raised by \<^verbatim>\<open>split_polygon\<close> when two meridians are selected
    (the specification's UnsupportedTopology);
  \<^item> \<open>ValueError_unpack\<close>: \<^verbatim>\<open>shell, *holes = []\<close> (not enough values to unpack);
  \<^item> \<open>TypeError_None\<close>: the comparison \<^verbatim>\<open>ring_minx < shell_minx\<close> with \<^verbatim>\<open>shell_minx = None\<close>;
  \<^item> \<open>UnboundLocalError\<close>: \<^verbatim>\<open>_split\<close> read in \<^verbatim>\<open>splitter\<close> before any assignment;
  \<^item> \<open>GeometryError\<close>: the split primitive of the geometry engine rejects its input.
\<close>

datatype error =
    ValueError_longitudes
  | NotImplementedError
  | ValueError_unpack
  | TypeError_None
  | UnboundLocalError
  | GeometryError

text \<open>The top-level argument of \<^verbatim>\<open>splitter\<close>, by its runtime type.\<close>

datatype geometry =
    Polygon polygon
  | MultiPolygon multipolygon
  | OtherGeometry

text \<open>
  The split-by-line primitive \<^verbatim>\<open>ops.split(polygon, line)\<close> of the geometry engine:
  \<open>None\<close> when the engine rejects the geometry.
\<close>

type_synonym split_prim = "polygon \<Rightarrow> linestring \<Rightarrow> multipolygon option"

subsection \<open>The geometry engine's bounding box and translation\<close>

text \<open>
  Modelled from the spec: the bounding-box query of the geometry engine (shapely's
  \<^verbatim>\<open>bounds\<close>), of which only (minLon, maxLon) is used. The bounds of a ring are the least
  and the greatest longitude of its coordinates; the bounds of a polygon are those of its
  shell; the bounds of a collection are the least minLon and the greatest maxLon of its
  members that have bounds. A geometry without coordinates has no bounds (\<open>None\<close>): the
  engine reports NaN there, and every comparison with NaN is false.
\<close>

definition ring_bounds :: "ring \<Rightarrow> (real \<times> real) option" where
  "ring_bounds r =
     (if r = [] then None else Some (Min (fst ` set r), Max (fst ` set r)))"

definition polygon_bounds :: "polygon \<Rightarrow> (real \<times> real) option" where
  "polygon_bounds p = (case p of [] \<Rightarrow> None | shell # holes \<Rightarrow> ring_bounds shell)"

definition collection_bounds :: "multipolygon \<Rightarrow> (real \<times> real) option" where
  "collection_bounds gc =
     (let bs = List.map_filter polygon_bounds gc
      in if bs = [] then None else Some (Min (fst ` set bs), Max (snd ` set bs)))"

text \<open>
  Modelled from the spec: the affine horizontal translation of the geometry engine
  (shapely's \<^verbatim>\<open>affinity.translate(geom, xoff)\<close>): every longitude of every ring moves by
  the offset. The engine adds in double precision and rounds the sum; the addition here
  is exact. A property that rests on \<open>x + 360 - 360 = x\<close> or on the width of a translated
  box is therefore stated only for longitudes on which the two agree.
\<close>

definition translate_ring :: "ring \<Rightarrow> real \<Rightarrow> ring" where
  "translate_ring r xoff = map (\<lambda>(x, y). (x + xoff, y)) r"

definition translate :: "polygon \<Rightarrow> real \<Rightarrow> polygon" where
  "translate p xoff = map (\<lambda>r. translate_ring r xoff) p"

subsection \<open>check\_crossing\<close>

definition check_crossing :: "real \<Rightarrow> real \<Rightarrow> bool \<Rightarrow> real \<Rightarrow> error + bool" where
  "check_crossing lon1 lon2 validate dlon_threshold =
     (if validate \<and> list_ex (\<lambda>x. \<bar>x\<bar> > 180) [lon1, lon2]
      then Inl ValueError_longitudes
      else Inr (\<bar>lon2 - lon1\<bar> > dlon_threshold))"

subsection \<open>translate\_polygons\<close>

definition normalize_range :: "polygon \<Rightarrow> polygon" where
  "normalize_range p =
     (case polygon_bounds p of
        None \<Rightarrow> p
      | Some (minx, maxx) \<Rightarrow>
          if minx < -180 then translate p 360
          else if maxx > 180 then translate p (-360)
          else p)"

definition translate_polygons :: "multipolygon \<Rightarrow> multipolygon" where
  "translate_polygons geometry_collection = map normalize_range geometry_collection"

subsection \<open>split\_polygon\<close>

text \<open>\<^verbatim>\<open>math.copysign(1, x)\<close> for a nonzero or positive-zero \<open>x\<close>.\<close>

definition copysign1 :: "real \<Rightarrow> real" where
  "copysign1 x = (if x < 0 then -1 else 1)"

text \<open>
  The inner loop over \<^verbatim>\<open>ring[1:]\<close>. \<open>lon_prev\<close> is the longitude of the previous vertex
  as stored in \<^verbatim>\<open>coords_shift\<close>, that is after its own shift (\<^verbatim>\<open>ring\<close> aliases
  \<^verbatim>\<open>coords_shift[ring_index]\<close>), while \<open>lon\<close> is the vertex's original longitude.
  The result is the shifted rest of the ring with the final \<^verbatim>\<open>ring_minx\<close>,
  \<^verbatim>\<open>ring_maxx\<close> and \<^verbatim>\<open>crossings\<close>.
\<close>

fun unwrap_loop ::
  "bool \<Rightarrow> real \<Rightarrow> ring \<Rightarrow> real \<Rightarrow> real \<Rightarrow> nat \<Rightarrow> error + (ring \<times> real \<times> real \<times> nat)" where
  "unwrap_loop validate lon_prev [] ring_minx ring_maxx crossings =
     Inr ([], ring_minx, ring_maxx, crossings)"
| "unwrap_loop validate lon_prev ((lon, lat) # rest) ring_minx ring_maxx crossings =
     (case check_crossing lon lon_prev validate 180 of
        Inl e \<Rightarrow> Inl e
      | Inr crossed \<Rightarrow>
          (let x_shift = (if crossed then lon - copysign1 (lon - lon_prev) * 360 else lon);
               crossings' = (if crossed then crossings + 1 else crossings);
               ring_minx' = (if x_shift < ring_minx then x_shift else ring_minx);
               ring_maxx' = (if x_shift > ring_maxx then x_shift else ring_maxx)
           in case unwrap_loop validate x_shift rest ring_minx' ring_maxx' crossings' of
                Inl e \<Rightarrow> Inl e
              | Inr (r, mn, mx, c) \<Rightarrow> Inr ((x_shift, lat) # r, mn, mx, c)))"

text \<open>One non-empty ring: \<^verbatim>\<open>ring_minx = ring_maxx = ring[0][0]\<close>, \<^verbatim>\<open>crossings = 0\<close>, then the loop.\<close>

fun unwrap_ring :: "bool \<Rightarrow> coord \<Rightarrow> ring \<Rightarrow> error + (ring \<times> real \<times> real \<times> nat)" where
  "unwrap_ring validate (lon0, lat0) rest =
     (case unwrap_loop validate lon0 rest lon0 lon0 0 of
        Inl e \<Rightarrow> Inl e
      | Inr (r, mn, mx, c) \<Rightarrow> Inr ((lon0, lat0) # r, mn, mx, c))"

text \<open>
  Lines 92 to 102: the first ring sets the shell bounds; a later ring is moved by a whole
  turn when it sticks out of the shell's bounds on the left, else on the right.
  The shell bounds are \<open>None\<close> as long as \<^verbatim>\<open>shell_minx = shell_maxx = None\<close>.
\<close>

definition align_ring ::
  "nat \<Rightarrow> (real \<times> real) option \<Rightarrow> ring \<times> real \<times> real \<Rightarrow>
     error + ((real \<times> real) option \<times> ring \<times> real \<times> real)" where
  "align_ring ring_index shell rb =
     (case rb of (r, ring_minx, ring_maxx) \<Rightarrow>
        if ring_index = 0 then Inr (Some (ring_minx, ring_maxx), r, ring_minx, ring_maxx)
        else (case shell of
                None \<Rightarrow> Inl TypeError_None
              | Some (shell_minx, shell_maxx) \<Rightarrow>
                  if ring_minx < shell_minx
                  then Inr (shell, translate_ring r 360, ring_minx + 360, ring_maxx + 360)
                  else if ring_maxx > shell_maxx
                  then Inr (shell, translate_ring r (-360), ring_minx - 360, ring_maxx - 360)
                  else Inr (shell, r, ring_minx, ring_maxx)))"

text \<open>Lines 104 to 108: the meridians a ring asks for.\<close>

definition ring_marks :: "real \<Rightarrow> real \<Rightarrow> nat \<Rightarrow> int set" where
  "ring_marks ring_minx ring_maxx crossings =
     (if crossings \<noteq> 0
      then (if ring_minx < -180 then {-180} else {}) \<union> (if ring_maxx > 180 then {180} else {})
      else {})"

text \<open>
  The outer loop over the rings, with the shell bounds and \<^verbatim>\<open>split_meridians\<close> threaded
  through; it returns the rings of \<^verbatim>\<open>coords_shift\<close> and the final \<^verbatim>\<open>split_meridians\<close>.
\<close>

fun ring_loop ::
  "bool \<Rightarrow> nat \<Rightarrow> ring list \<Rightarrow> (real \<times> real) option \<Rightarrow> int set \<Rightarrow>
     error + (ring list \<times> int set)" where
  "ring_loop validate ring_index [] shell split_meridians = Inr ([], split_meridians)"
| "ring_loop validate ring_index ([] # rings) shell split_meridians =
     (case ring_loop validate (Suc ring_index) rings shell split_meridians of
        Inl e \<Rightarrow> Inl e
      | Inr (rs, ms) \<Rightarrow> Inr ([] # rs, ms))"
| "ring_loop validate ring_index ((c0 # rest) # rings) shell split_meridians =
     (case unwrap_ring validate c0 rest of
        Inl e \<Rightarrow> Inl e
      | Inr (r, mn, mx, crossings) \<Rightarrow>
          (case align_ring ring_index shell (r, mn, mx) of
             Inl e \<Rightarrow> Inl e
           | Inr (shell', r', ring_minx, ring_maxx) \<Rightarrow>
               (case ring_loop validate (Suc ring_index) rings shell'
                       (split_meridians \<union> ring_marks ring_minx ring_maxx crossings) of
                  Inl e \<Rightarrow> Inl e
                | Inr (rs, ms) \<Rightarrow> Inr (r' # rs, ms))))"

text \<open>The splitting line \<^verbatim>\<open>LineString([[split_lon, -90.0], [split_lon, 90.0]])\<close>.\<close>

definition meridian_line :: "int \<Rightarrow> linestring" where
  "meridian_line split_lon = [(real_of_int split_lon, -90), (real_of_int split_lon, 90)]"

definition split_polygon :: "split_prim \<Rightarrow> polygon \<Rightarrow> bool \<Rightarrow> error + multipolygon" where
  "split_polygon split_prim geojson validate =
     (case ring_loop validate 0 geojson None {} of
        Inl e \<Rightarrow> Inl e
      | Inr (coords_shift, split_meridians) \<Rightarrow>
          (let n_splits = card split_meridians in
           if n_splits > 1 then Inl NotImplementedError
           else
             (let splitter =
                    (if n_splits = 1 then Some (meridian_line (the_elem split_meridians))
                     else None)
              in case (case splitter of Some l \<Rightarrow> coords_shift | None \<Rightarrow> geojson) of
                   [] \<Rightarrow> Inl ValueError_unpack
                 | shell # holes \<Rightarrow>
                     (case (case splitter of
                              Some l \<Rightarrow> split_prim (shell # holes) l
                            | None \<Rightarrow> Some [shell # holes]) of
                        None \<Rightarrow> Inl GeometryError
                      | Some split_polygons \<Rightarrow> Inr (translate_polygons split_polygons)))))"

subsection \<open>split\_multipolygon\<close>

fun split_multipolygon_loop ::
  "split_prim \<Rightarrow> multipolygon \<Rightarrow> multipolygon \<Rightarrow> error + multipolygon" where
  "split_multipolygon_loop split_prim [] split_result = Inr split_result"
| "split_multipolygon_loop split_prim (p # ps) split_result =
     (case split_polygon split_prim p False of
        Inl e \<Rightarrow> Inl e
      | Inr result \<Rightarrow> split_multipolygon_loop split_prim ps (split_result @ result))"

definition split_multipolygon :: "split_prim \<Rightarrow> multipolygon \<Rightarrow> error + multipolygon" where
  "split_multipolygon split_prim mp = split_multipolygon_loop split_prim mp []"

subsection \<open>wrap\_polygons\<close>

text \<open>\<^verbatim>\<open>maxx - minx\<close> of a bounding box; NaN (\<open>None\<close>) when there are no bounds.\<close>

definition bounds_difference :: "(real \<times> real) option \<Rightarrow> real option" where
  "bounds_difference b = (case b of None \<Rightarrow> None | Some (minx, maxx) \<Rightarrow> Some (maxx - minx))"

text \<open>\<^verbatim>\<open>a < b\<close> on floats that may be NaN.\<close>

definition float_less :: "real option \<Rightarrow> real option \<Rightarrow> bool" where
  "float_less a b = (case (a, b) of (Some x, Some y) \<Rightarrow> x < y | _ \<Rightarrow> False)"

fun wrap_loop :: "multipolygon \<Rightarrow> multipolygon \<Rightarrow> multipolygon" where
  "wrap_loop [] transformed = transformed"
| "wrap_loop (p # ps) transformed =
     (case polygon_bounds p of
        None \<Rightarrow> wrap_loop ps (transformed @ [p])
      | Some (minx, maxx) \<Rightarrow>
          if minx < 0 then wrap_loop ps (transformed @ [translate p 360])
          else wrap_loop ps (transformed @ [p]))"

text \<open>The flag \<^verbatim>\<open>verbose\<close> only prints a note; it does not change the result.\<close>

definition wrap_polygons :: "multipolygon \<Rightarrow> bool \<Rightarrow> multipolygon" where
  "wrap_polygons geometry_collection verbose =
     (let initial_difference = bounds_difference (collection_bounds geometry_collection);
          transformed = wrap_loop geometry_collection [];
          transformed_difference = bounds_difference (collection_bounds transformed)
      in if float_less transformed_difference initial_difference
         then transformed
         else geometry_collection)"

subsection \<open>splitter\<close>

text \<open>
  The two \<^verbatim>\<open>if\<close>s of \<^verbatim>\<open>splitter\<close> assign \<^verbatim>\<open>_split\<close>; for any other type it stays
  unassigned and the call of \<^verbatim>\<open>wrap_polygons(_split, ...)\<close> raises.
\<close>

definition split_stage :: "split_prim \<Rightarrow> geometry \<Rightarrow> error + multipolygon" where
  "split_stage split_prim geometry_collection =
     (case geometry_collection of
        MultiPolygon mp \<Rightarrow> split_multipolygon split_prim mp
      | Polygon p \<Rightarrow> split_polygon split_prim p False
      | OtherGeometry \<Rightarrow> Inl UnboundLocalError)"

definition splitter :: "split_prim \<Rightarrow> geometry \<Rightarrow> bool \<Rightarrow> error + multipolygon" where
  "splitter split_prim geometry_collection verbose =
     (case split_stage split_prim geometry_collection of
        Inl e \<Rightarrow> Inl e
      | Inr split_out \<Rightarrow> Inr (wrap_polygons split_out verbose))"

subsection \<open>Predicates used to state the properties\<close>

text \<open>No two consecutive vertices of the ring differ in longitude by more than 180 degrees.\<close>

fun deltas_within :: "ring \<Rightarrow> bool" where
  "deltas_within (c1 # c2 # cs) = (\<bar>fst c2 - fst c1\<bar> \<le> 180 \<and> deltas_within (c2 # cs))"
| "deltas_within cs = True"

text \<open>Every longitude of the ring lies in the closed range from -180 to 180.\<close>

definition lons_in_range :: "ring \<Rightarrow> bool" where
  "lons_in_range r = list_all (\<lambda>c. \<bar>fst c\<bar> \<le> 180) r"

text \<open>The longitude stored for a vertex by the inner loop (line 85), as one term.\<close>

definition x_shift_of :: "real \<Rightarrow> real \<Rightarrow> bool \<Rightarrow> real" where
  "x_shift_of lon lon_prev crossed =
     (if crossed then lon - copysign1 (lon - lon_prev) * 360 else lon)"

text \<open>
  A split primitive that rejects every geometry; it stands for the geometry engine in
  examples where no split is attempted.
\<close>

definition reject_all :: split_prim where
  "reject_all p l = None"

text \<open>
  The candidate of the footprint optimizer in the words of the specification: every
  fragment whose own minLon is negative is translated by +360, the others are left as they
  are; and the longitudinal width of a collection.
\<close>

definition spec_shift_negative :: "polygon \<Rightarrow> polygon" where
  "spec_shift_negative p =
     (case polygon_bounds p of
        None \<Rightarrow> p
      | Some (minx, maxx) \<Rightarrow> if minx < 0 then translate p 360 else p)"

definition spec_candidate :: "multipolygon \<Rightarrow> multipolygon" where
  "spec_candidate gc = map spec_shift_negative gc"

definition spec_width :: "multipolygon \<Rightarrow> real option" where
  "spec_width gc =
     (case collection_bounds gc of None \<Rightarrow> None | Some (minx, maxx) \<Rightarrow> Some (maxx - minx))"










text \<open>A ring is closed when its first and its last coordinate agree.\<close>

definition closed_ring :: "ring \<Rightarrow> bool" where
  "closed_ring r = (r = [] \<or> hd r = last r)"

subsection \<open>The geometry engine's area and an instance of its split\<close>

text \<open>
  Modelled from the spec: the planar area of the geometry engine (shapely's \<^verbatim>\<open>area\<close>),
  by the surveyor's formula: the area of a ring is half the absolute value of the sum of
  the cross products of consecutive coordinates, and the area of a polygon is the area of
  its shell less the areas of its holes.
\<close>

fun shoelace :: "ring \<Rightarrow> real" where
  "shoelace (p # q # rest) = (fst p * snd q - fst q * snd p) + shoelace (q # rest)"
| "shoelace r = 0"

definition ring_area :: "ring \<Rightarrow> real" where
  "ring_area r = \<bar>shoelace r\<bar> / 2"

definition polygon_area :: "polygon \<Rightarrow> real" where
  "polygon_area p =
     (case p of [] \<Rightarrow> 0 | shell # holes \<Rightarrow> ring_area shell - sum_list (map ring_area holes))"

text \<open>
  Modelled from the spec: the boolean split-by-line of the geometry engine, for a polygon
  without holes and a vertical line at longitude \<open>m\<close>: the fragments are the parts of the
  shell with longitude at most \<open>m\<close> and at least \<open>m\<close>, obtained by clipping the closed
  shell edge by edge against the line (exact for a convex shell); a part without
  coordinates is dropped, and any other input is rejected. It instantiates the parameter
  \<open>split_prim\<close> in the examples; no general property depends on it.
\<close>

definition cut_point :: "coord \<Rightarrow> coord \<Rightarrow> real \<Rightarrow> coord" where
  "cut_point p q m = (m, snd p + (m - fst p) * (snd q - snd p) / (fst q - fst p))"

fun clip_ring :: "(real \<Rightarrow> bool) \<Rightarrow> real \<Rightarrow> ring \<Rightarrow> ring" where
  "clip_ring inside m (p # q # rest) =
     (if inside (fst p)
      then (if inside (fst q) then [q] else [cut_point p q m])
      else (if inside (fst q) then [cut_point p q m, q] else []))
     @ clip_ring inside m (q # rest)"
| "clip_ring inside m r = []"

definition close_ring :: "ring \<Rightarrow> ring" where
  "close_ring r = (if r = [] then [] else last r # r)"

definition halfplane_split :: split_prim where
  "halfplane_split p l =
     (case (p, l) of
        ([shell], [(m, s), (m', n)]) \<Rightarrow>
          if m = m'
          then Some (map (\<lambda>r. [close_ring r])
                 (filter (\<lambda>r. r \<noteq> [])
                    [clip_ring (\<lambda>x. x \<le> m) m shell, clip_ring (\<lambda>x. m \<le> x) m shell]))
          else None
      | _ \<Rightarrow> None)"

subsection \<open>Example geometries\<close>

text \<open>
  A ring that winds around the globe and needs both meridians; rectangles west and east of
  the valid range; a rectangle inside it; a rectangle with a vertex on the meridian 180
  whose long edges are detected as crossings; and the two halves of a rectangle split at
  the antimeridian.
\<close>

definition P_spiral :: polygon where
  "P_spiral = [[(170,0),(-170,0),(20,1),(-150,1),(170,2),(170,0)]]"
definition P_west :: polygon where
  "P_west = [[(-190,0),(-185,0),(-185,1),(-190,1),(-190,0)]]"
definition P_east :: polygon where
  "P_east = [[(185,0),(190,0),(190,1),(185,1),(185,0)]]"
definition P_box :: polygon where
  "P_box = [[(0,0),(10,0),(10,10),(0,10),(0,0)]]"
definition P_wide :: polygon where
  "P_wide = [[(-10,0),(180,0),(180,1),(-10,1),(-10,0)]]"
definition MP_pair :: multipolygon where
  "MP_pair = [[[(178,0),(180,0),(180,1),(178,1),(178,0)]], [[(-180,0),(-178,0),(-178,1),(-180,1),(-180,0)]]]"

text \<open>
  The ring of the specification's concrete case, its unwrapped form and the two halves of
  the unwrapped form; the fragments and the result of the pipeline on that ring; a polygon
  across the antimeridian with a hole west of it; and a rectangle far west of the valid
  range.
\<close>

definition P_antimeridian :: polygon where
  "P_antimeridian = [[(179,0),(-179,0),(-179,1),(179,1),(179,0)]]"

definition U_antimeridian :: polygon where
  "U_antimeridian = [[(179,0),(181,0),(181,1),(179,1),(179,0)]]"

definition F_halves :: multipolygon where
  "F_halves = [[[(179, 0), (180, 0), (180, 1), (179, 1), (179, 0)]],
           [[(180, 1), (180, 0), (181, 0), (181, 1), (180, 1)]]]"





text \<open>
  Two rectangles within the valid range; the first has a vertex on the meridian -180 and
  edges longer than 180 degrees.
\<close>

definition MP_wide_pair :: multipolygon where
  "MP_wide_pair =
     [[[(10,0),(-180,0),(-180,1),(10,1),(10,0)]], [[(170,0),(175,0),(175,1),(170,1),(170,0)]]]"

section \<open>Properties\<close>

subsection \<open>The loops of split\_polygon\<close>

lemma check_crossing_False: "check_crossing a b False t = Inr (\<bar>b - a\<bar> > t)"
  by (simp add: check_crossing_def)

lemma unwrap_loop_Cons:
  "unwrap_loop v prev ((lon, lat) # rest) mn mx c =
     (case check_crossing lon prev v 180 of
        Inl e \<Rightarrow> Inl e
      | Inr crossed \<Rightarrow>
          (case unwrap_loop v (x_shift_of lon prev crossed) rest
                  (min mn (x_shift_of lon prev crossed)) (max mx (x_shift_of lon prev crossed))
                  (if crossed then Suc c else c) of
             Inl e \<Rightarrow> Inl e
           | Inr (r, mn', mx', c') \<Rightarrow> Inr ((x_shift_of lon prev crossed, lat) # r, mn', mx', c')))"
proof (cases "check_crossing lon prev v 180")
  case (Inl e)
  then show ?thesis by simp
next
  case (Inr crossed)
  have m: "\<And>x y::real. (if x < y then x else y) = min y x" "\<And>x y::real. (if x > y then x else y) = max y x"
    by (simp_all add: min_def max_def)
  show ?thesis
  proof (cases crossed)
    case True
    show ?thesis
      unfolding unwrap_loop.simps Inr True x_shift_of_def sum.case Let_def if_True m
      by simp
  next
    case False
    show ?thesis
      unfolding unwrap_loop.simps Inr False x_shift_of_def sum.case Let_def if_False m
      by simp
  qed
qed

declare unwrap_loop.simps(2) [simp del]

lemma unwrap_loop_total:
  "\<exists>res. unwrap_loop False prev rest mn mx c = Inr res"
proof (induction rest arbitrary: prev mn mx c)
  case Nil
  show ?case by simp
next
  case (Cons a rest)
  obtain lon lat where a: "a = (lon, lat)" by (cases a)
  define b where "b = (\<bar>prev - lon\<bar> > 180)"
  obtain r mn' mx' c' where "unwrap_loop False (x_shift_of lon prev b) rest
      (min mn (x_shift_of lon prev b)) (max mx (x_shift_of lon prev b)) (if b then Suc c else c)
      = Inr (r, mn', mx', c')"
    using Cons.IH by (metis prod_cases4)
  then show ?case
    unfolding a by (simp add: unwrap_loop_Cons check_crossing_False b_def)
qed



lemma unwrap_loop_no_crossing:
  assumes "deltas_within ((prev, lat0) # rest)"
    and "validate \<longrightarrow> lons_in_range ((prev, lat0) # rest)"
  shows "\<exists>mn' mx'. unwrap_loop validate prev rest mn mx c = Inr (rest, mn', mx', c)"
  using assms
proof (induction rest arbitrary: prev lat0 mn mx)
  case Nil
  show ?case by simp
next
  case (Cons a rest)
  obtain lon lat where a: "a = (lon, lat)" by (cases a)
  from Cons.prems have d: "\<not> \<bar>prev - lon\<bar> > 180" and dw: "deltas_within ((lon, lat) # rest)"
    by (auto simp: a abs_minus_commute)
  from Cons.prems have r: "validate \<longrightarrow> \<bar>lon\<bar> \<le> 180 \<and> \<bar>prev\<bar> \<le> 180"
    and rr: "validate \<longrightarrow> lons_in_range ((lon, lat) # rest)"
    by (auto simp: a lons_in_range_def)
  have cc: "check_crossing lon prev validate 180 = Inr False"
    using d r by (auto simp: check_crossing_def)
  obtain mn' mx' where
    "unwrap_loop validate lon rest (min mn lon) (max mx lon) c = Inr (rest, mn', mx', c)"
    using Cons.IH [OF dw rr] by blast
  then show ?case
    unfolding a by (simp add: unwrap_loop_Cons cc x_shift_of_def)
qed

lemma unwrap_ring_total: "\<exists>res. unwrap_ring False c0 rest = Inr res"
proof -
  obtain lon0 lat0 where c0: "c0 = (lon0, lat0)" by (cases c0)
  obtain r mn mx c where "unwrap_loop False lon0 rest lon0 lon0 0 = Inr (r, mn, mx, c)"
    using unwrap_loop_total by (metis prod_cases4)
  then show ?thesis unfolding c0 by simp
qed

lemma unwrap_ring_no_crossing:
  assumes "deltas_within (c0 # rest)" and "validate \<longrightarrow> lons_in_range (c0 # rest)"
  shows "\<exists>mn mx. unwrap_ring validate c0 rest = Inr (c0 # rest, mn, mx, 0)"
proof -
  obtain lon0 lat0 where c0: "c0 = (lon0, lat0)" by (cases c0)
  obtain mn mx where "unwrap_loop validate lon0 rest lon0 lon0 0 = Inr (rest, mn, mx, 0)"
    using unwrap_loop_no_crossing [of lon0 lat0 rest validate lon0 lon0 0] assms
    unfolding c0 by blast
  then show ?thesis unfolding c0 by simp
qed

lemma align_ring_error: "align_ring i sb x = Inl e \<Longrightarrow> e = TypeError_None"
  by (auto simp: align_ring_def split: prod.splits if_splits option.splits)

lemma ring_loop_no_validation:
  "ring_loop False i rings sb ms \<noteq> Inl ValueError_longitudes"
proof (induction rings arbitrary: i sb ms)
  case Nil
  show ?case by simp
next
  case (Cons ring rings)
  show ?case
  proof (cases ring)
    case Nil
    then show ?thesis using Cons.IH by (auto split: sum.splits)
  next
    case (Cons c0 rest)
    obtain res where u: "unwrap_ring False c0 rest = Inr res"
      using unwrap_ring_total by blast
    show ?thesis
      unfolding Cons using Cons.IH u
      by (auto simp del: unwrap_ring.simps split: sum.splits prod.splits dest: align_ring_error)
  qed
qed

lemma ring_marks_subset: "ring_marks mn mx c \<subseteq> {-180, 180}"
  by (auto simp: ring_marks_def)

lemma ring_loop_meridians:
  "ring_loop v i rings sb ms = Inr (cs, ms') \<Longrightarrow>
     ms \<subseteq> ms' \<and> ms' \<subseteq> ms \<union> {-180, 180} \<and> length cs = length rings"
proof (induction rings arbitrary: i sb ms cs)
  case Nil
  then show ?case by auto
next
  case (Cons ring rings)
  show ?case
  proof (cases ring)
    case Nil
    with Cons.prems obtain rs where "ring_loop v (Suc i) rings sb ms = Inr (rs, ms')" "cs = [] # rs"
      by (auto split: sum.splits)
    with Cons.IH show ?thesis by fastforce
  next
    case c: (Cons c0 rest)
    from Cons.prems obtain r mn mx cr sb' r' mn' mx' rs where
      "ring_loop v (Suc i) rings sb' (ms \<union> ring_marks mn' mx' cr) = Inr (rs, ms')" "cs = r' # rs"
      unfolding c by (auto simp del: unwrap_ring.simps split: sum.splits prod.splits)
    with Cons.IH [of "Suc i" sb' "ms \<union> ring_marks mn' mx' cr" rs]
    show ?thesis using ring_marks_subset [of mn' mx' cr] by auto
  qed
qed

lemma ring_loop_no_crossing_holes:
  assumes "list_all deltas_within rings" and "validate \<longrightarrow> list_all lons_in_range rings"
  shows "\<exists>cs. ring_loop validate (Suc i) rings (Some sb) ms = Inr (cs, ms)"
  using assms
proof (induction rings arbitrary: i)
  case Nil
  show ?case by simp
next
  case (Cons ring rings)
  then obtain cs where ih: "ring_loop validate (Suc (Suc i)) rings (Some sb) ms = Inr (cs, ms)"
    by auto
  show ?case
  proof (cases ring)
    case Nil
    then show ?thesis using ih by simp
  next
    case c: (Cons c0 rest)
    obtain mn mx where u: "unwrap_ring validate c0 rest = Inr (c0 # rest, mn, mx, 0)"
      using unwrap_ring_no_crossing [of c0 rest validate] Cons.prems unfolding c by auto
    have "\<exists>r' mn' mx'. align_ring (Suc i) (Some sb) (c0 # rest, mn, mx) = Inr (Some sb, r', mn', mx')"
      by (cases sb) (simp add: align_ring_def)
    then obtain r' mn' mx' where
      al: "align_ring (Suc i) (Some sb) (c0 # rest, mn, mx) = Inr (Some sb, r', mn', mx')"
      by blast
    show ?thesis
      unfolding c using u al ih by (simp del: unwrap_ring.simps add: ring_marks_def)
  qed
qed

lemma ring_loop_no_crossing:
  assumes "list_all deltas_within p" and "validate \<longrightarrow> list_all lons_in_range p"
    and "p \<noteq> []" and "hd p \<noteq> []"
  shows "\<exists>cs. ring_loop validate 0 p None {} = Inr (cs, {})"
proof -
  from assms obtain c0 rest holes where p: "p = (c0 # rest) # holes"
    by (cases p; cases "hd p") auto
  obtain mn mx where u: "unwrap_ring validate c0 rest = Inr (c0 # rest, mn, mx, 0)"
    using unwrap_ring_no_crossing [of c0 rest validate] assms unfolding p by auto
  obtain cs where "ring_loop validate (Suc 0) holes (Some (mn, mx)) {} = Inr (cs, {})"
    using ring_loop_no_crossing_holes [of holes validate 0 "(mn, mx)" "{}"] assms unfolding p by auto
  then show ?thesis
    unfolding p using u by (simp del: unwrap_ring.simps add: ring_marks_def align_ring_def)
qed

subsection \<open>The crossing check\<close>

text \<open>
  Claim C3. For all longitudes \<open>lon1\<close>, \<open>lon2\<close>, every \<open>validate\<close> flag and every threshold,
  \<^verbatim>\<open>check_crossing\<close> fails with the longitude \<^verbatim>\<open>ValueError\<close> exactly when \<open>validate\<close> is set
  and one of \<open>\<bar>lon1\<bar>\<close>, \<open>\<bar>lon2\<bar>\<close> exceeds 180; in every other case it returns whether
  \<open>\<bar>lon2 - lon1\<bar>\<close> exceeds the threshold. With 200 and 0 and the default threshold it fails
  under validation and returns true without it.
\<close>

theorem check_crossing_spec:
  "(check_crossing lon1 lon2 validate thr = Inl ValueError_longitudes
      \<longleftrightarrow> validate \<and> (\<bar>lon1\<bar> > 180 \<or> \<bar>lon2\<bar> > 180))
   \<and> (\<not> (validate \<and> (\<bar>lon1\<bar> > 180 \<or> \<bar>lon2\<bar> > 180))
      \<longrightarrow> check_crossing lon1 lon2 validate thr = Inr (\<bar>lon2 - lon1\<bar> > thr))
   \<and> check_crossing 200 0 True 180 = Inl ValueError_longitudes
   \<and> check_crossing 200 0 False 180 = Inr True"
  by (simp add: check_crossing_def)

theorem check_crossing_spec_witness:
  "\<not> (False \<and> (\<bar>200::real\<bar> > 180 \<or> \<bar>0::real\<bar> > 180))
   \<and> check_crossing 200 0 False 180 = Inr (\<bar>0 - 200\<bar> > (180::real))
   \<and> check_crossing 200 0 False 180 \<noteq> Inl ValueError_longitudes"
  using check_crossing_spec [of 200 0 False 180] by simp

subsection \<open>Polygons that are not split\<close>

lemma split_polygon_pass_through:
  assumes "ring_loop validate 0 p None {} = Inr (cs, {})" and "p \<noteq> []"
  shows "split_polygon sp p validate = Inr [normalize_range p]"
proof -
  from assms(2) obtain shell holes where p: "p = shell # holes" by (cases p) auto
  show ?thesis
    unfolding split_polygon_def assms(1) by (simp add: p translate_polygons_def)
qed

lemma normalize_range_in_range:
  "polygon_bounds p = Some (minx, maxx) \<Longrightarrow> -180 \<le> minx \<Longrightarrow> maxx \<le> 180 \<Longrightarrow> normalize_range p = p"
  by (simp add: normalize_range_def)

lemma polygon_bounds_SomeD: "polygon_bounds p = Some b \<Longrightarrow> p \<noteq> [] \<and> hd p \<noteq> []"
  by (cases p) (auto simp: polygon_bounds_def ring_bounds_def split: if_splits)

lemma split_polygon_settled:
  assumes "list_all deltas_within p" and "validate \<longrightarrow> list_all lons_in_range p"
    and "polygon_bounds p = Some (minx, maxx)"
  shows "split_polygon sp p validate = Inr [normalize_range p]"
proof -
  from assms(3) have ne: "p \<noteq> []" "hd p \<noteq> []" using polygon_bounds_SomeD by blast+
  obtain cs where "ring_loop validate 0 p None {} = Inr (cs, {})"
    using ring_loop_no_crossing [OF assms(1,2) ne] by blast
  then show ?thesis using ne(1) by (rule split_polygon_pass_through)
qed

lemma P_box_facts:
  "list_all deltas_within P_box" "list_all lons_in_range P_box" "polygon_bounds P_box = Some (0, 10)"
  by (simp_all add: P_box_def lons_in_range_def polygon_bounds_def ring_bounds_def)

lemma ring_loop_P_wide: "ring_loop False 0 P_wide None {} =
   Inr ([[(-10, 0), (-180, 0), (-180, 1), (-10, 1), (-10, 0)]], {})"
  by code_simp

lemma P_wide_facts: "P_wide \<noteq> []" "polygon_bounds P_wide = Some (-10, 180)"
  "[[(-10, 0), (-180, 0), (-180, 1), (-10, 1), (-10, 0)]] \<noteq> P_wide"
  by (simp_all add: P_wide_def polygon_bounds_def ring_bounds_def)

text \<open>
  Claim C4, as stated: every polygon without a consecutive longitude difference above the
  threshold comes back as exactly one fragment equal to the input. This fails on the code:
  the rectangle between longitudes -190 and -185 has no such difference, yet
  \<^verbatim>\<open>translate_polygons\<close> moves its single fragment by +360.
\<close>

theorem split_polygon_no_crossing_counterexample:
  "list_all deltas_within P_west
   \<and> split_polygon reject_all P_west False = Inr [translate P_west 360]
   \<and> split_polygon reject_all P_west False \<noteq> Inr [P_west]"
  by code_simp

text \<open>
  Claim C4, amended: for every polygon with a non-empty shell whose shell longitudes lie
  within -180 and 180 and in which no two consecutive vertices of a ring differ in
  longitude by more than 180 (and, when \<open>validate\<close> is set, whose longitudes all lie in
  that range), \<^verbatim>\<open>split_polygon\<close> returns exactly one fragment, equal to the input.
\<close>

theorem split_polygon_no_crossing:
  assumes "list_all deltas_within p" and "validate \<longrightarrow> list_all lons_in_range p"
    and "polygon_bounds p = Some (minx, maxx)" and "-180 \<le> minx" and "maxx \<le> 180"
  shows "split_polygon sp p validate = Inr [p]"
  using split_polygon_settled [OF assms(1,2,3)] normalize_range_in_range [OF assms(3,4,5)]
  by simp

theorem split_polygon_no_crossing_witness:
  "list_all deltas_within P_box \<and> list_all lons_in_range P_box
   \<and> polygon_bounds P_box = Some (0, 10) \<and> (-180::real) \<le> 0 \<and> (10::real) \<le> 180
   \<and> split_polygon reject_all P_box True = Inr [P_box]"
  using split_polygon_no_crossing [of P_box True 0 10 reject_all] P_box_facts
  by simp

text \<open>
  Claim C10, as stated: whenever no meridian is selected the returned fragment's
  coordinates equal the input's exactly. This fails on the code: for the rectangle between
  longitudes 185 and 190 no meridian is selected, and the fragment built from the input
  coordinates is then moved by -360 by \<^verbatim>\<open>translate_polygons\<close>.
\<close>

theorem split_polygon_no_meridian_counterexample:
  "ring_loop False 0 P_east None {} = Inr (P_east, {})
   \<and> split_polygon reject_all P_east False = Inr [translate P_east (-360)]
   \<and> split_polygon reject_all P_east False \<noteq> Inr [P_east]"
  by code_simp

text \<open>
  Claim C10, amended: for every polygon with at least one ring for which the ring loop
  ends with an empty set of meridians, \<^verbatim>\<open>split_polygon\<close> builds its single fragment
  from the input coordinates, not from \<^verbatim>\<open>coords_shift\<close>, and returns it after the range
  re-wrap of \<^verbatim>\<open>translate_polygons\<close>; when the bounds of the input's shell lie within -180
  and 180 the fragment equals the input exactly, even when crossings were detected.
\<close>

theorem split_polygon_no_meridian:
  assumes "ring_loop validate 0 p None {} = Inr (coords_shift, {})" and "p \<noteq> []"
  shows "split_polygon sp p validate = Inr (translate_polygons [p])
     \<and> ((\<exists>minx maxx. polygon_bounds p = Some (minx, maxx) \<and> -180 \<le> minx \<and> maxx \<le> 180)
          \<longrightarrow> split_polygon sp p validate = Inr [p])"
  using split_polygon_pass_through [OF assms] normalize_range_in_range
  by (auto simp: translate_polygons_def)

theorem split_polygon_no_meridian_witness:
  "ring_loop False 0 P_wide None {} =
     Inr ([[(-10, 0), (-180, 0), (-180, 1), (-10, 1), (-10, 0)]], {})
   \<and> P_wide \<noteq> []
   \<and> [[(-10, 0), (-180, 0), (-180, 1), (-10, 1), (-10, 0)]] \<noteq> P_wide
   \<and> split_polygon reject_all P_wide False = Inr [P_wide]"
  using split_polygon_no_meridian [OF ring_loop_P_wide P_wide_facts(1), of reject_all]
    ring_loop_P_wide P_wide_facts
  by auto

subsection \<open>Two meridians\<close>

lemma ring_loop_P_spiral: "ring_loop False 0 P_spiral None {} =
   Inr ([[(170, 0), (190, 0), (20, 1), (-150, 1), (-190, 2), (-190, 0)]], {-180, 180})"
  by code_simp

text \<open>
  Claim C2. Whenever the ring loop completes with both -180 and 180 in the set of selected
  meridians, \<^verbatim>\<open>split_polygon\<close> fails with \<^verbatim>\<open>NotImplementedError\<close> (UnsupportedTopology)
  and returns no fragments, whatever the split primitive is.
\<close>

theorem split_polygon_two_meridians:
  assumes "ring_loop validate 0 p None {} = Inr (coords_shift, ms)"
    and "-180 \<in> ms" and "180 \<in> ms"
  shows "split_polygon sp p validate = Inl NotImplementedError"
proof -
  from ring_loop_meridians [OF assms(1)] have "ms \<subseteq> {-180, 180}" by simp
  with assms(2,3) have "ms = {-180, 180}" by auto
  then have "card ms = 2" by simp
  then show ?thesis
    unfolding split_polygon_def assms(1) by simp
qed

theorem split_polygon_two_meridians_witness:
  "ring_loop False 0 P_spiral None {} =
     Inr ([[(170, 0), (190, 0), (20, 1), (-150, 1), (-190, 2), (-190, 0)]], {-180, 180})
   \<and> (-180::int) \<in> {-180, 180} \<and> (180::int) \<in> {-180, 180}
   \<and> split_polygon reject_all P_spiral False = Inl NotImplementedError"
  using split_polygon_two_meridians [OF ring_loop_P_spiral, of reject_all] ring_loop_P_spiral
  by simp

subsection \<open>The dispatcher\<close>

text \<open>
  Claim C8. For an argument that is neither a Polygon nor a MultiPolygon the code of
  \<^verbatim>\<open>splitter\<close> reads the unassigned variable \<^verbatim>\<open>_split\<close>: the call ends with an
  \<^verbatim>\<open>UnboundLocalError\<close>, not with a deliberate invalid-input error.
\<close>

theorem splitter_other_geometry:
  "splitter sp OtherGeometry verbose = Inl UnboundLocalError"
  by (simp add: splitter_def split_stage_def)

lemma split_polygon_no_validation:
  "split_polygon sp p False \<noteq> Inl ValueError_longitudes"
  using ring_loop_no_validation [of 0 p None "{}"]
  by (auto simp: split_polygon_def Let_def split: sum.splits list.splits option.splits if_splits)

lemma split_multipolygon_loop_no_validation:
  "split_multipolygon_loop sp mp acc \<noteq> Inl ValueError_longitudes"
  using split_polygon_no_validation
  by (induction mp arbitrary: acc) (auto split: sum.splits)

text \<open>
  Claim C9. Through \<^verbatim>\<open>split_multipolygon\<close> and through \<^verbatim>\<open>splitter\<close> the longitude
  \<^verbatim>\<open>ValueError\<close> of \<^verbatim>\<open>check_crossing\<close> is never raised, for any input and any split
  primitive: both call \<^verbatim>\<open>split_polygon\<close> with \<open>validate\<close> false.
\<close>

theorem validation_unreachable:
  "split_multipolygon sp mp \<noteq> Inl ValueError_longitudes
   \<and> splitter sp g verbose \<noteq> Inl ValueError_longitudes"
  using split_multipolygon_loop_no_validation [of sp _ "[]"] split_polygon_no_validation [of sp]
  by (cases g) (auto simp: split_multipolygon_def splitter_def split_stage_def split: sum.splits)

text \<open>
  Called directly with \<open>validate\<close> set, \<^verbatim>\<open>split_polygon\<close> does raise the error, even on
  the ring of the specification's concrete case, whose longitudes all lie in the valid
  range: the check compares the next vertex with the previous vertex's shifted longitude
  181.
\<close>

lemma validation_reachable_directly:
  "split_polygon sp P_antimeridian True = Inl ValueError_longitudes"
proof -
  have "ring_loop True 0 P_antimeridian None {} = Inl ValueError_longitudes"
    by code_simp
  then show ?thesis by (simp add: split_polygon_def)
qed

subsection \<open>The footprint optimizer\<close>

lemma wrap_loop_eq: "wrap_loop gc transformed = transformed @ spec_candidate gc"
  by (induction gc arbitrary: transformed)
     (auto simp: spec_candidate_def spec_shift_negative_def split: option.splits)

lemma float_less_Some: "float_less (Some x) (Some y) = (x < y)"
  by (simp add: float_less_def)

lemma bounds_difference_eq: "bounds_difference (collection_bounds gc) = spec_width gc"
  by (simp add: bounds_difference_def spec_width_def)

lemma MP_pair_widths: "spec_width MP_pair = Some 360" "spec_width (spec_candidate MP_pair) = Some 4"
  by code_simp+

text \<open>
  Claim C5. \<^verbatim>\<open>wrap_polygons\<close> builds the candidate of the specification (each fragment
  whose own minLon is negative moved by +360, the others untouched) and returns it when
  its width is strictly less than the width of the input collection, and the input
  collection unchanged otherwise. A width is undefined (NaN) for a collection without
  coordinates, and a comparison with it is false.
\<close>

theorem wrap_polygons_spec:
  "wrap_polygons gc verbose =
     (if float_less (spec_width (spec_candidate gc)) (spec_width gc)
      then spec_candidate gc else gc)
   \<and> (\<forall>w w'. spec_width gc = Some w \<and> spec_width (spec_candidate gc) = Some w' \<longrightarrow>
         (w' < w \<longrightarrow> wrap_polygons gc verbose = spec_candidate gc)
       \<and> (\<not> w' < w \<longrightarrow> wrap_polygons gc verbose = gc))"
  by (auto simp: wrap_polygons_def Let_def wrap_loop_eq bounds_difference_eq float_less_Some)

theorem wrap_polygons_spec_witness:
  "spec_width MP_pair = Some 360 \<and> spec_width (spec_candidate MP_pair) = Some 4
   \<and> (4::real) < 360 \<and> wrap_polygons MP_pair False = spec_candidate MP_pair"
  using wrap_polygons_spec [of MP_pair False] MP_pair_widths
  by (simp add: float_less_Some)

subsection \<open>Translation, bounds and area\<close>

lemma fst_set_translate_ring: "fst ` set (translate_ring r d) = (\<lambda>c. fst c + d) ` set r"
  by (force simp: translate_ring_def)

lemma ring_bounds_translate:
  "ring_bounds r = Some (mn, mx) \<Longrightarrow> ring_bounds (translate_ring r d) = Some (mn + d, mx + d)"
proof -
  assume a: "ring_bounds r = Some (mn, mx)"
  then have ne: "r \<noteq> []" by (auto simp: ring_bounds_def)
  then have ne': "set r \<noteq> {}" "translate_ring r d \<noteq> []" by (auto simp: translate_ring_def)
  from a ne have "mn = Min (fst ` set r)" "mx = Max (fst ` set r)" by (auto simp: ring_bounds_def)
  then show ?thesis
    using ne' Min_add_commute [of "set r" fst d] Max_add_commute [of "set r" fst d]
    by (simp add: ring_bounds_def fst_set_translate_ring)
qed


lemma polygon_bounds_translate:
  "polygon_bounds p = Some (mn, mx) \<Longrightarrow> polygon_bounds (translate p d) = Some (mn + d, mx + d)"
  by (cases p) (auto simp: polygon_bounds_def translate_def ring_bounds_translate)




lemma shoelace_translate:
  "shoelace (translate_ring (p # r) d) = shoelace (p # r) + d * (snd (last (p # r)) - snd p)"
proof (induction r arbitrary: p)
  case Nil
  show ?case by (simp add: translate_ring_def split: prod.splits)
next
  case (Cons q r)
  have "shoelace (translate_ring (p # q # r) d)
      = ((fst p + d) * snd q - (fst q + d) * snd p) + shoelace (translate_ring (q # r) d)"
    by (simp add: translate_ring_def split: prod.splits)
  also have "\<dots> = ((fst p + d) * snd q - (fst q + d) * snd p)
      + (shoelace (q # r) + d * (snd (last (q # r)) - snd q))"
    using Cons.IH [of q] by simp
  finally show ?case by (simp add: algebra_simps)
qed

lemma ring_area_translate: "closed_ring r \<Longrightarrow> ring_area (translate_ring r d) = ring_area r"
proof (cases r)
  case Nil
  then show ?thesis by (simp add: translate_ring_def)
next
  case (Cons p r')
  assume "closed_ring r"
  then have "last (p # r') = p" unfolding Cons by (simp add: closed_ring_def)
  then show ?thesis
    unfolding Cons ring_area_def shoelace_translate by simp
qed

lemma sum_ring_area_translate:
  "list_all closed_ring holes \<Longrightarrow>
     sum_list (map ring_area (map (\<lambda>r. translate_ring r d) holes)) = sum_list (map ring_area holes)"
  by (induction holes) (simp_all add: ring_area_translate)

lemma polygon_area_translate:
  assumes "list_all closed_ring p"
  shows "polygon_area (translate p d) = polygon_area p"
proof (cases p)
  case Nil
  then show ?thesis by (simp add: translate_def)
next
  case (Cons shell holes)
  with assms have c: "closed_ring shell" "list_all closed_ring holes" by simp_all
  show ?thesis
    unfolding Cons polygon_area_def translate_def list.map list.case
    by (simp only: sum_ring_area_translate [OF c(2)] ring_area_translate [OF c(1)])
qed

subsection \<open>Hole alignment\<close>















subsection \<open>The concrete case of the specification\<close>

lemma ring_loop_P_antimeridian:
  "ring_loop False 0 P_antimeridian None {} = Inr (U_antimeridian, {180})"
  by code_simp

lemma split_polygon_P_antimeridian:
  assumes "sp U_antimeridian (meridian_line 180) = Some fs"
  shows "split_polygon sp P_antimeridian False = Inr (translate_polygons fs)"
proof -
  have u: "U_antimeridian = [(179,0),(181,0),(181,1),(179,1),(179,0)] # []"
    by (simp add: U_antimeridian_def)
  show ?thesis
    unfolding split_polygon_def ring_loop_P_antimeridian
    using assms by (simp add: u)
qed

lemma area_U_antimeridian: "polygon_area U_antimeridian = 2"
  by (simp add: U_antimeridian_def polygon_area_def ring_area_def)

lemma normalize_west_half:
  "polygon_bounds f = Some (179, 180) \<Longrightarrow> normalize_range f = f"
  by (simp add: normalize_range_def)

lemma normalize_east_half:
  assumes "polygon_bounds f = Some (180, 181)" and "list_all closed_ring f"
  shows "polygon_bounds (normalize_range f) = Some (-180, -179)
     \<and> polygon_area (normalize_range f) = polygon_area f"
proof -
  have "normalize_range f = translate f (-360)"
    using assms(1) by (simp add: normalize_range_def)
  then show ?thesis
    using polygon_bounds_translate [OF assms(1), of "-360"] polygon_area_translate [OF assms(2)]
    by simp
qed

text \<open>
  Claim C1. For the ring [[179,0],[-179,0],[-179,1],[179,1],[179,0]] the loop unwraps the
  ring to longitudes 179 to 181 and selects the meridian 180. With any split primitive
  that cuts this unwrapped rectangle at the line into two fragments with closed rings, one
  on each side (bounds 179 to 180 and 180 to 181), of the same total area,
  \<^verbatim>\<open>split_polygon\<close> returns exactly two fragments, one spanning longitudes 179 to 180 and
  one spanning -180 to -179, whose areas add up to 2, the area of the unsplit unwrapped
  ring. (In its raw coordinates the input ring spans 358 degrees.)
\<close>

theorem split_polygon_antimeridian:
  assumes "sp U_antimeridian (meridian_line 180) = Some fs"
    and "length fs = 2"
    and "set (map polygon_bounds fs) = {Some (179, 180), Some (180, 181)}"
    and "sum_list (map polygon_area fs) = polygon_area U_antimeridian"
    and "list_all (list_all closed_ring) fs"
  shows "split_polygon sp P_antimeridian False = Inr (translate_polygons fs)
     \<and> length (translate_polygons fs) = 2
     \<and> set (map polygon_bounds (translate_polygons fs)) = {Some (179, 180), Some (-180, -179)}
     \<and> sum_list (map polygon_area (translate_polygons fs)) = 2
     \<and> polygon_area U_antimeridian = 2"
proof -
  from assms(2) obtain f1 f2 where fs: "fs = [f1, f2]"
    by (cases fs; cases "tl fs") auto
  from assms(3) consider
      (we) "polygon_bounds f1 = Some (179, 180)" "polygon_bounds f2 = Some (180, 181)"
    | (ew) "polygon_bounds f1 = Some (180, 181)" "polygon_bounds f2 = Some (179, 180)"
    unfolding fs by (auto simp: doubleton_eq_iff)
  then have "set (map polygon_bounds (translate_polygons fs)) = {Some (179, 180), Some (-180, -179)}
     \<and> sum_list (map polygon_area (translate_polygons fs)) = sum_list (map polygon_area fs)"
  proof cases
    case we
    from normalize_west_half [OF we(1)] normalize_east_half [OF we(2)] assms(5) we(1)
    show ?thesis unfolding fs by (simp add: translate_polygons_def)
  next
    case ew
    from normalize_west_half [OF ew(2)] normalize_east_half [OF ew(1)] assms(5) ew(2)
    show ?thesis unfolding fs by (simp add: translate_polygons_def insert_commute)
  qed
  then show ?thesis
    using split_polygon_P_antimeridian [of sp fs] assms(1,2,4) area_U_antimeridian
    by (simp add: translate_polygons_def)
qed

lemma F_halves_facts:
  "halfplane_split U_antimeridian (meridian_line 180) = Some F_halves"
  "length F_halves = 2"
  "set (map polygon_bounds F_halves) = {Some (179, 180), Some (180, 181)}"
  "sum_list (map polygon_area F_halves) = polygon_area U_antimeridian"
  "list_all (list_all closed_ring) F_halves"
  by code_simp+

theorem split_polygon_antimeridian_witness:
  "halfplane_split U_antimeridian (meridian_line 180) = Some F_halves
   \<and> length F_halves = 2
   \<and> set (map polygon_bounds F_halves) = {Some (179, 180), Some (180, 181)}
   \<and> sum_list (map polygon_area F_halves) = polygon_area U_antimeridian
   \<and> list_all (list_all closed_ring) F_halves
   \<and> split_polygon halfplane_split P_antimeridian False =
       Inr [[[(179, 0), (180, 0), (180, 1), (179, 1), (179, 0)]],
            [[(-180, 1), (-180, 0), (-179, 0), (-179, 1), (-180, 1)]]]
   \<and> sum_list (map polygon_area (translate_polygons F_halves)) = 2"
proof -
  have t: "translate_polygons F_halves =
       [[[(179, 0), (180, 0), (180, 1), (179, 1), (179, 0)]],
        [[(-180, 1), (-180, 0), (-179, 0), (-179, 1), (-180, 1)]]]"
    by code_simp
  show ?thesis
    using split_polygon_antimeridian [of halfplane_split F_halves] F_halves_facts
    unfolding t by simp
qed

subsection \<open>Running the pipeline twice\<close>














text \<open>
  With the half-plane instance of the split primitive a second run also changes the
  result for an input within the valid range: the first rectangle of \<open>MP_wide_pair\<close> is
  passed through with its long edges and moved by +360 by the optimizer; the second run
  detects crossings on it, unwraps it and returns it between longitudes 10 and 180.
\<close>

lemma splitter_second_run_in_range:
  "splitter halfplane_split (MultiPolygon MP_wide_pair) False =
     Inr [[[(370, 0), (180, 0), (180, 1), (370, 1), (370, 0)]],
          [[(170, 0), (175, 0), (175, 1), (170, 1), (170, 0)]]]
   \<and> splitter halfplane_split
        (MultiPolygon [[[(370, 0), (180, 0), (180, 1), (370, 1), (370, 0)]],
                       [[(170, 0), (175, 0), (175, 1), (170, 1), (170, 0)]]]) False =
     Inr [[[(10, 0), (180, 0), (180, 1), (10, 1), (10, 0)]],
          [[(170, 0), (175, 0), (175, 1), (170, 1), (170, 0)]]]"
  by code_simp

end
